theory Spec2Isabelle
  imports Complex_Main
begin

section \<open>Pricing utilities (dsd/utils/pricing.py)\<close>

text \<open>
  Money amounts and margins are Python \<^verbatim>\<open>Decimal\<close> values. They are modelled as
  rationals: every \<^verbatim>\<open>Decimal\<close> is a rational, and sums, differences, products and
  comparisons of decimals are exact. A \<^verbatim>\<open>Decimal\<close> quotient is rounded by Python to 28
  significant digits; the model keeps the exact quotient. \<^verbatim>\<open>None\<close> is \<open>None\<close>.
\<close>

type_synonym decimal = rat

text \<open>Truth value of an optional decimal: \<^verbatim>\<open>None\<close> and zero are false.\<close>

fun truthy :: "decimal option \<Rightarrow> bool" where
  "truthy None = False"
| "truthy (Some d) = (d \<noteq> 0)"

text \<open>\<^verbatim>\<open>int(x)\<close> on a decimal truncates towards zero.\<close>

definition py_int :: "decimal \<Rightarrow> int" where
  "py_int x = (if 0 \<le> x then \<lfloor>x\<rfloor> else \<lceil>x\<rceil>)"

text \<open>
  \<^verbatim>\<open>x.quantize(Decimal(10) ** -k)\<close> under the default context: rounding to \<open>k\<close> decimal
  places, ties to the even neighbour (\<^verbatim>\<open>ROUND_HALF_EVEN\<close>).
\<close>

definition quantize :: "nat \<Rightarrow> decimal \<Rightarrow> decimal" where
  "quantize k x =
     (let y = x * 10 ^ k;
          f = \<lfloor>y\<rfloor>;
          d = y - of_int f
      in of_int (if d < 1 / 2 then f
                 else if 1 / 2 < d then f + 1
                 else if even f then f else f + 1) / 10 ^ k)"

definition suggest_retail :: "decimal option \<Rightarrow> decimal option \<Rightarrow> decimal option" where
  "suggest_retail new_unit_cost current_margin =
     (case new_unit_cost of
        None \<Rightarrow> None
      | Some unit_cost \<Rightarrow>
     (case current_margin of
        None \<Rightarrow> None
      | Some margin \<Rightarrow>
          if margin \<le> 0 \<or> 1 \<le> margin then None
          else if unit_cost \<le> 0 then None
          else
            let theoretical = unit_cost / (1 - margin);
                theoretical_cents = py_int (theoretical * 100);
                remainder = theoretical_cents mod 10;
                suggested_cents =
                  (if remainder \<le> 8 then theoretical_cents - remainder + 8
                   else theoretical_cents - remainder + 18);
                suggested_cents =
                  (if suggested_cents < theoretical_cents then suggested_cents + 10
                   else suggested_cents)
            in Some (quantize 2 (of_int suggested_cents / 100))))"


section \<open>Entities (dsd/models.py)\<close>

text \<open>
  The database is a record of tables, each table the list of its rows in insertion order.
  Every operation takes the database and returns the database it leaves behind together
  with what it returned or raised. Columns that none of the modelled operations reads or
  writes (display sequence, link group, flags, movement, the \<^verbatim>\<open>created_at\<close> and
  \<^verbatim>\<open>updated_at\<close> stamps kept by the framework) are left out, and a column keeps the
  value assigned to it (the column precision of the persistence layer is not modelled).
  A user is identified by the user name. \<^verbatim>\<open>timezone.now()\<close> is a parameter \<open>now\<close>;
  the calls made within one operation read the same clock value.
\<close>

type_synonym user = string

datatype date = Date (year: nat) (month: nat) (day: nat)

type_synonym datetime = "date \<times> nat"

definition date_of :: "datetime \<Rightarrow> date" where
  "date_of t = fst t"

definition date_le :: "date \<Rightarrow> date \<Rightarrow> bool" where
  "date_le a b =
     (year a < year b \<or>
      (year a = year b \<and> (month a < month b \<or> (month a = month b \<and> day a \<le> day b))))"

fun zero_pad :: "nat \<Rightarrow> nat \<Rightarrow> string" where
  "zero_pad 0 n = []"
| "zero_pad (Suc w) n = zero_pad w (n div 10) @ [char_of (48 + n mod 10)]"

text \<open>\<^verbatim>\<open>d.strftime('%Y%m%d')\<close>\<close>

definition strftime_Ymd :: "date \<Rightarrow> string" where
  "strftime_Ymd d = zero_pad 4 (year d) @ zero_pad 2 (month d) @ zero_pad 2 (day d)"

datatype status = PENDING | APPROVED | REJECTED | APPLIED

datatype source = MANUAL | IMPORT | PORTAL | BRDATA_SYNC | SYSTEM

datatype change_type = COST_AND_PRICE | COST_ONLY | PRICE_ONLY

datatype export_type = PRICE_CHANGE | NEW_ITEM | DISCO | TPR

datatype export_status = EXPORT_PENDING | SENT | CONFIRMED | FAILED

record vendor =
  v_vendor_code :: string
  target_margin :: decimal

record item =
  item_pk :: nat
  vendor_id :: string
  upc :: string
  brdata_item_no :: "string option"
  description :: string
  case_pack :: int
  case_cost :: decimal
  allowance :: decimal
  retail_price :: "decimal option"
  last_cost_change :: "date option"
  last_price_change :: "date option"

record pending_cost_change =
  pk :: "nat option"
  item_id :: nat
  vendor_code :: string
  pcc_upc :: string
  new_case_cost :: decimal
  new_allowance :: decimal
  effective_date :: date
  suggested_retail :: "decimal option"
  approved_retail :: "decimal option"
  prev_case_cost :: "decimal option"
  prev_allowance :: "decimal option"
  prev_retail :: "decimal option"
  prev_margin :: "decimal option"
  status :: status
  change_source :: source
  submitted_by :: "user option"
  approved_by :: "user option"
  approved_at :: "datetime option"
  applied_at :: "datetime option"
  pcc_notes :: "string option"

record change_history =
  h_vendor_code :: string
  h_upc :: string
  h_change_date :: datetime
  h_change_type :: change_type
  h_old_case_cost :: "decimal option"
  h_old_allowance :: "decimal option"
  h_new_case_cost :: "decimal option"
  h_new_allowance :: "decimal option"
  h_old_retail :: "decimal option"
  h_new_retail :: "decimal option"
  h_old_margin :: "decimal option"
  h_new_margin :: "decimal option"
  h_changed_by :: "string option"
  h_change_source :: source
  h_pending_cost_change_id :: "nat option"
  h_price_change_reason :: "string option"
  h_notes :: "string option"

record brdata_export_log =
  e_export_date :: datetime
  e_export_type :: export_type
  e_vendor_code :: string
  e_upc :: string
  e_brdata_item_no :: "string option"
  e_new_retail :: "decimal option"
  e_effective_date :: "date option"
  e_export_status :: export_status
  e_export_file :: "string option"
  e_error_message :: "string option"
  e_exported_by :: "string option"
  e_confirmed_at :: "datetime option"

record db =
  vendors :: "vendor list"
  items :: "item list"
  pending_cost_changes :: "pending_cost_change list"
  change_history_log :: "change_history list"
  export_log :: "brdata_export_log list"

datatype error =
    Http404
  | ValueError
  | ZeroDivisionError
  | DoesNotExist
  | MultipleObjectsReturned
  | SaveError

subsection \<open>Calculated properties of an item\<close>

definition net_case_cost :: "item \<Rightarrow> decimal" where
  "net_case_cost self = case_cost self - allowance self"

definition unit_cost :: "item \<Rightarrow> decimal option" where
  "unit_cost self =
     (if case_pack self \<noteq> 0 \<and> 0 < case_pack self
      then Some (net_case_cost self / of_int (case_pack self))
      else None)"

definition margin :: "item \<Rightarrow> decimal option" where
  "margin self =
     (case retail_price self of
        None \<Rightarrow> None
      | Some rp \<Rightarrow>
          if rp \<noteq> 0 \<and> 0 < rp
          then (case unit_cost self of
                  None \<Rightarrow> None
                | Some uc \<Rightarrow> Some ((rp - uc) / rp))
          else None)"

subsection \<open>Queries and saves\<close>

text \<open>\<^verbatim>\<open>get(...)\<close>: exactly one match, or an exception.\<close>

definition get_one :: "'a list \<Rightarrow> error + 'a" where
  "get_one matches =
     (case matches of
        [] \<Rightarrow> Inl DoesNotExist
      | [x] \<Rightarrow> Inr x
      | _ \<Rightarrow> Inl MultipleObjectsReturned)"

text \<open>\<^verbatim>\<open>get_object_or_404(...)\<close>: no match is answered with \<^verbatim>\<open>Http404\<close>.\<close>

definition get_object_or_404 :: "'a list \<Rightarrow> error + 'a" where
  "get_object_or_404 matches =
     (case get_one matches of
        Inl DoesNotExist \<Rightarrow> Inl Http404
      | r \<Rightarrow> r)"

text \<open>Following the foreign keys \<^verbatim>\<open>change.item\<close> and \<^verbatim>\<open>item.vendor\<close>.\<close>

definition item_of :: "db \<Rightarrow> pending_cost_change \<Rightarrow> error + item" where
  "item_of d c = get_one (filter (\<lambda>i. item_pk i = item_id c) (items d))"

definition vendor_of :: "db \<Rightarrow> item \<Rightarrow> error + vendor" where
  "vendor_of d i = get_one (filter (\<lambda>v. v_vendor_code v = vendor_id i) (vendors d))"

text \<open>
  \<^verbatim>\<open>.first()\<close> on pending cost changes: the model's \<^verbatim>\<open>Meta.ordering\<close> puts the
  earliest effective date first. Rows that tie are ordered by the database; the model
  takes the earliest row among them.
\<close>

fun first_change :: "pending_cost_change list \<Rightarrow> pending_cost_change option" where
  "first_change [] = None"
| "first_change (c # cs) =
     (case first_change cs of
        None \<Rightarrow> Some c
      | Some d \<Rightarrow> if date_le (effective_date c) (effective_date d) then Some c else Some d)"

definition next_pk :: "pending_cost_change list \<Rightarrow> nat" where
  "next_pk rows = Suc (fold max (map (\<lambda>r. case pk r of None \<Rightarrow> 0 | Some k \<Rightarrow> k) rows) 0)"

text \<open>
  \<^verbatim>\<open>change.save()\<close>: a change that has a primary key replaces the row with that key
  (and is inserted when there is none); a new change is inserted under a fresh key.
\<close>

definition save_change :: "pending_cost_change \<Rightarrow> db \<Rightarrow> pending_cost_change \<times> db" where
  "save_change self d =
     (let rows = pending_cost_changes d in
      case pk self of
        None \<Rightarrow>
          (let c = self\<lparr>pk := Some (next_pk rows)\<rparr>
           in (c, d\<lparr>pending_cost_changes := rows @ [c]\<rparr>))
      | Some k \<Rightarrow>
          if \<exists>r \<in> set rows. pk r = Some k
          then (self, d\<lparr>pending_cost_changes :=
                           map (\<lambda>r. if pk r = Some k then self else r) rows\<rparr>)
          else (self, d\<lparr>pending_cost_changes := rows @ [self]\<rparr>))"

definition save_item :: "item \<Rightarrow> db \<Rightarrow> db" where
  "save_item self d =
     d\<lparr>items := map (\<lambda>r. if item_pk r = item_pk self then self else r) (items d)\<rparr>"

subsection \<open>Values that arrive untyped\<close>

text \<open>
  A retail override reaches the code as \<^verbatim>\<open>None\<close>, as a number, or as the text of a form
  field. Of a text the code uses only whether it is empty (its truth value) and which
  number it denotes, if any (\<^verbatim>\<open>float(...)\<close>, or the conversion made when a decimal
  column is saved). Texts that denote an infinity or a NaN are not modelled.
\<close>

datatype form_text = Empty | Numeric decimal | Other

datatype py_value = PyNone | PyNum decimal | PyText form_text

fun is_true :: "py_value \<Rightarrow> bool" where
  "is_true PyNone = False"
| "is_true (PyNum d) = (d \<noteq> 0)"
| "is_true (PyText Empty) = False"
| "is_true (PyText _) = True"

text \<open>\<^verbatim>\<open>float(x)\<close>; \<^verbatim>\<open>TypeError\<close> and \<^verbatim>\<open>ValueError\<close> are caught together by the caller.\<close>

fun py_float :: "py_value \<Rightarrow> error + decimal" where
  "py_float PyNone = Inl ValueError"
| "py_float (PyNum d) = Inr d"
| "py_float (PyText (Numeric d)) = Inr d"
| "py_float (PyText _) = Inl ValueError"

text \<open>The value a nullable decimal column takes from what was assigned to it.\<close>

fun to_python :: "py_value \<Rightarrow> error + decimal option" where
  "to_python PyNone = Inr None"
| "to_python (PyNum d) = Inr (Some d)"
| "to_python (PyText (Numeric d)) = Inr (Some d)"
| "to_python (PyText _) = Inl SaveError"

subsection \<open>PendingCostChange.approve\<close>

definition approve ::
  "datetime \<Rightarrow> pending_cost_change \<Rightarrow> user option \<Rightarrow> py_value \<Rightarrow> db
     \<Rightarrow> (error + pending_cost_change) \<times> db" where
  "approve now self usr retail_override d =
     (let self = self\<lparr>status := APPROVED, approved_by := usr, approved_at := Some now\<rparr> in
      if is_true retail_override then
        (case to_python retail_override of
           Inl e \<Rightarrow> (Inl e, d)
         | Inr v \<Rightarrow>
             (let (c, d') = save_change (self\<lparr>approved_retail := v\<rparr>) d in (Inr c, d')))
      else if approved_retail self = None then
        (let (c, d') = save_change (self\<lparr>approved_retail := suggested_retail self\<rparr>) d
         in (Inr c, d'))
      else
        (let (c, d') = save_change self d in (Inr c, d')))"

subsection \<open>PendingCostChange.apply_to_item\<close>

definition retail_changed :: "pending_cost_change \<Rightarrow> item \<Rightarrow> bool" where
  "retail_changed self it =
     (approved_retail self \<noteq> None \<and> approved_retail self \<noteq> retail_price it)"

definition history_record ::
  "datetime \<Rightarrow> user option \<Rightarrow> pending_cost_change \<Rightarrow> item \<Rightarrow> change_history" where
  "history_record now usr self it =
     \<lparr>h_vendor_code = vendor_id it,
      h_upc = upc it,
      h_change_date = now,
      h_change_type = (if retail_changed self it then COST_AND_PRICE else COST_ONLY),
      h_old_case_cost = Some (case_cost it),
      h_old_allowance = Some (allowance it),
      h_new_case_cost = Some (new_case_cost self),
      h_new_allowance = Some (new_allowance self),
      h_old_retail = retail_price it,
      h_new_retail = approved_retail self,
      h_old_margin = margin it,
      h_new_margin = None,
      h_changed_by = Some (case usr of None \<Rightarrow> ''SYSTEM'' | Some u \<Rightarrow> u),
      h_change_source = change_source self,
      h_pending_cost_change_id = pk self,
      h_price_change_reason = None,
      h_notes = None\<rparr>"

definition updated_item :: "datetime \<Rightarrow> pending_cost_change \<Rightarrow> item \<Rightarrow> item" where
  "updated_item now self it =
     (let changed = retail_changed self it;
          it = it\<lparr>case_cost := new_case_cost self,
                  allowance := new_allowance self,
                  last_cost_change := Some (date_of now)\<rparr>
      in if changed
         then it\<lparr>retail_price := approved_retail self,
                 last_price_change := Some (date_of now)\<rparr>
         else it)"

text \<open>
  The successive states of the database while a change is applied: after the history
  record is created, after the item is saved, after the change is saved.
\<close>

definition apply_to_item_states ::
  "datetime \<Rightarrow> pending_cost_change \<Rightarrow> user option \<Rightarrow> db \<Rightarrow> error + db list" where
  "apply_to_item_states now self usr d =
     (if status self \<noteq> APPROVED then Inl ValueError
      else case item_of d self of
             Inl e \<Rightarrow> Inl e
           | Inr it \<Rightarrow>
               (let d1 = d\<lparr>change_history_log :=
                              change_history_log d @ [history_record now usr self it]\<rparr>;
                    d2 = save_item (updated_item now self it) d1;
                    d3 = snd (save_change (self\<lparr>status := APPLIED, applied_at := Some now\<rparr>) d2)
                in Inr [d1, d2, d3]))"

definition apply_to_item ::
  "datetime \<Rightarrow> pending_cost_change \<Rightarrow> user option \<Rightarrow> db \<Rightarrow> (error + unit) \<times> db" where
  "apply_to_item now self usr d =
     (case apply_to_item_states now self usr d of
        Inl e \<Rightarrow> (Inl e, d)
      | Inr states \<Rightarrow> (Inr (), last states))"

section \<open>Views (dsd/views.py)\<close>

datatype http_method = GET | POST

datatype message = Msg_success | Msg_warning | Msg_error

datatype csv_row =
    Header
  | Row string string string "decimal option" string string

datatype response =
    Redirect "message option"
  | Render "message option"
  | Csv string "csv_row list"

subsection \<open>cost_change_entry\<close>

text \<open>
  The posted form. A field is \<open>PyNone\<close> when it was not posted and a text otherwise; the
  effective date is \<open>None\<close> when it was not posted or is not a date, which the save
  rejects. Conversions between decimals and floats are taken as exact.
\<close>

record cost_change_post =
  p_new_case_cost :: py_value
  p_new_allowance :: py_value
  p_effective_date :: "date option"
  p_approved_retail :: py_value
  p_notes :: string

text \<open>
  The change that is saved: the open change of the item, or else a new one, with the
  fields the \<^verbatim>\<open>try\<close> block assigns. A new change starts from the defaults of the
  model; its two columns without a default are assigned before the save.
\<close>

definition submitted_change ::
  "user \<Rightarrow> string \<Rightarrow> string \<Rightarrow> cost_change_post \<Rightarrow> item \<Rightarrow> pending_cost_change option
     \<Rightarrow> decimal \<Rightarrow> decimal \<Rightarrow> decimal option \<Rightarrow> decimal option \<Rightarrow> date
     \<Rightarrow> pending_cost_change" where
  "submitted_change usr vcode ucode post it existing ncc na suggested retail eff =
     (let change =
            (case existing of
               Some c \<Rightarrow> c
             | None \<Rightarrow>
                 \<lparr>pk = None, item_id = item_pk it, vendor_code = vcode, pcc_upc = ucode,
                  new_case_cost = ncc, new_allowance = 0, effective_date = eff,
                  suggested_retail = None, approved_retail = None,
                  prev_case_cost = None, prev_allowance = None,
                  prev_retail = None, prev_margin = None,
                  status = PENDING, change_source = MANUAL,
                  submitted_by = None, approved_by = None,
                  approved_at = None, applied_at = None, pcc_notes = None\<rparr>)
      in change\<lparr>new_case_cost := ncc,
                new_allowance := na,
                effective_date := eff,
                suggested_retail := suggested,
                approved_retail := retail,
                prev_case_cost := Some (case_cost it),
                prev_allowance := Some (allowance it),
                prev_retail := retail_price it,
                prev_margin := margin it,
                change_source := MANUAL,
                submitted_by := Some usr,
                pcc_notes := Some (p_notes post),
                status := PENDING\<rparr>)"

text \<open>The body of the \<^verbatim>\<open>try\<close> block that handles a posted form.\<close>

definition cost_change_entry_post ::
  "user \<Rightarrow> string \<Rightarrow> string \<Rightarrow> cost_change_post \<Rightarrow> item \<Rightarrow> pending_cost_change option
     \<Rightarrow> db \<Rightarrow> (error + response) \<times> db" where
  "cost_change_entry_post usr vcode ucode post it existing d =
     (case py_float (p_new_case_cost post) of
        Inl _ \<Rightarrow> (Inr (Render (Some Msg_error)), d)
      | Inr ncc \<Rightarrow>
     (case py_float
             (let a = (case p_new_allowance post of PyNone \<Rightarrow> PyNum 0 | v \<Rightarrow> v)
              in if is_true a then a else PyNum 0) of
        Inl _ \<Rightarrow> (Inr (Render (Some Msg_error)), d)
      | Inr na \<Rightarrow>
     (if case_pack it = 0 then (Inl ZeroDivisionError, d) else
     (case (if truthy (margin it) then Inr (margin it)
            else (case vendor_of d it of
                    Inl e \<Rightarrow> Inl e
                  | Inr v \<Rightarrow> Inr (Some (target_margin v)))) of
        Inl e \<Rightarrow> (Inl e, d)
      | Inr current_margin \<Rightarrow>
     (let new_unit_cost = (ncc - na) / of_int (case_pack it);
          suggested = suggest_retail (Some new_unit_cost) current_margin in
     (case (if is_true (p_approved_retail post) then to_python (p_approved_retail post)
            else Inr suggested) of
        Inl e \<Rightarrow> (Inl e, d)
      | Inr retail \<Rightarrow>
     (case p_effective_date post of
        None \<Rightarrow> (Inl SaveError, d)
      | Some eff \<Rightarrow>
          (Inr (Redirect (Some Msg_success)),
           snd (save_change
                  (submitted_change usr vcode ucode post it existing ncc na suggested retail eff)
                  d)))))))))"

definition cost_change_entry ::
  "http_method \<Rightarrow> user \<Rightarrow> string \<Rightarrow> string \<Rightarrow> cost_change_post \<Rightarrow> db
     \<Rightarrow> (error + response) \<times> db" where
  "cost_change_entry method usr vcode ucode post d =
     (case get_object_or_404 (filter (\<lambda>i. vendor_id i = vcode \<and> upc i = ucode) (items d)) of
        Inl e \<Rightarrow> (Inl e, d)
      | Inr it \<Rightarrow>
          (let existing = first_change
                 (filter (\<lambda>c. item_id c = item_pk it \<and> status c = PENDING)
                    (pending_cost_changes d))
           in if method = POST then cost_change_entry_post usr vcode ucode post it existing d
              else (Inr (Render None), d)))"

subsection \<open>approve_change and apply_change\<close>

definition approve_change ::
  "datetime \<Rightarrow> http_method \<Rightarrow> user \<Rightarrow> nat \<Rightarrow> string option \<Rightarrow> py_value \<Rightarrow> db
     \<Rightarrow> (error + response) \<times> db" where
  "approve_change now method usr change_id action retail_override d =
     (case get_object_or_404
             (filter (\<lambda>c. pk c = Some change_id \<and> status c = PENDING)
                (pending_cost_changes d)) of
        Inl e \<Rightarrow> (Inl e, d)
      | Inr change \<Rightarrow>
          if method = POST then
            if action = Some ''approve'' then
              (case approve now change (Some usr)
                      (if is_true retail_override then retail_override else PyNone) d of
                 (Inl e, d') \<Rightarrow> (Inl e, d')
               | (Inr _, d') \<Rightarrow> (Inr (Redirect (Some Msg_success)), d'))
            else if action = Some ''reject'' then
              (Inr (Redirect (Some Msg_warning)),
               snd (save_change
                      (change\<lparr>status := REJECTED, approved_by := Some usr,
                              approved_at := Some now\<rparr>) d))
            else (Inr (Redirect None), d)
          else (Inr (Redirect None), d))"

definition apply_change ::
  "datetime \<Rightarrow> http_method \<Rightarrow> user \<Rightarrow> nat \<Rightarrow> db \<Rightarrow> (error + response) \<times> db" where
  "apply_change now method usr change_id d =
     (case get_object_or_404
             (filter (\<lambda>c. pk c = Some change_id \<and> status c = APPROVED)
                (pending_cost_changes d)) of
        Inl e \<Rightarrow> (Inl e, d)
      | Inr change \<Rightarrow>
          if method = POST then
            (case apply_to_item now change (Some usr) d of
               (Inl ValueError, d') \<Rightarrow> (Inr (Redirect (Some Msg_error)), d')
             | (Inl e, d') \<Rightarrow> (Inl e, d')
             | (Inr _, d') \<Rightarrow> (Inr (Redirect (Some Msg_success)), d'))
          else (Inr (Redirect None), d))"

subsection \<open>brdata_export\<close>

text \<open>
  The rows are written in table order; the order in which the database returns them
  (by effective date and vendor code) is not modelled. The retail in a row is the
  decimal itself, not its printed form.
\<close>

definition due_changes :: "date \<Rightarrow> db \<Rightarrow> pending_cost_change list" where
  "due_changes today d =
     filter (\<lambda>c. status c = APPROVED \<and> date_le (effective_date c) today)
       (pending_cost_changes d)"

text \<open>The row written for a change, and the log entry created for it.\<close>

definition export_row :: "item \<Rightarrow> pending_cost_change \<Rightarrow> csv_row" where
  "export_row it change =
     Row (case brdata_item_no it of None \<Rightarrow> [] | Some n \<Rightarrow> n)
         (pcc_upc change)
         (description it)
         (approved_retail change)
         (strftime_Ymd (effective_date change))
         (vendor_code change)"

definition export_log_entry ::
  "datetime \<Rightarrow> string \<Rightarrow> user \<Rightarrow> item \<Rightarrow> pending_cost_change \<Rightarrow> brdata_export_log" where
  "export_log_entry now filename usr it c =
     \<lparr>e_export_date = now,
      e_export_type = PRICE_CHANGE,
      e_vendor_code = vendor_code c,
      e_upc = pcc_upc c,
      e_brdata_item_no = brdata_item_no it,
      e_new_retail = approved_retail c,
      e_effective_date = Some (effective_date c),
      e_export_status = SENT,
      e_export_file = Some filename,
      e_error_message = None,
      e_exported_by = Some usr,
      e_confirmed_at = None\<rparr>"

fun export_rows :: "db \<Rightarrow> pending_cost_change list \<Rightarrow> error + csv_row list" where
  "export_rows d [] = Inr []"
| "export_rows d (change # rest) =
     (case item_of d change of
        Inl e \<Rightarrow> Inl e
      | Inr it \<Rightarrow>
          (case export_rows d rest of
             Inl e \<Rightarrow> Inl e
           | Inr rows \<Rightarrow> Inr (export_row it change # rows)))"

fun log_export ::
  "datetime \<Rightarrow> string \<Rightarrow> user \<Rightarrow> nat option list \<Rightarrow> db \<Rightarrow> error option \<times> db" where
  "log_export now filename usr [] d = (None, d)"
| "log_export now filename usr (change_id # rest) d =
     (case get_one (filter (\<lambda>c. pk c = change_id) (due_changes (date_of now) d)) of
        Inl e \<Rightarrow> (Some e, d)
      | Inr c \<Rightarrow>
          (case item_of d c of
             Inl e \<Rightarrow> (Some e, d)
           | Inr it \<Rightarrow>
               log_export now filename usr rest
                 (d\<lparr>export_log := export_log d @ [export_log_entry now filename usr it c]\<rparr>)))"

definition brdata_export :: "datetime \<Rightarrow> user \<Rightarrow> db \<Rightarrow> (error + response) \<times> db" where
  "brdata_export now usr d =
     (let today = date_of now;
          changes = due_changes today d
      in if changes = [] then (Inr (Redirect (Some Msg_warning)), d)
         else
           (let filename = ''brdata_export_'' @ strftime_Ymd today @ ''.csv'' in
            case export_rows d changes of
              Inl e \<Rightarrow> (Inl e, d)
            | Inr rows \<Rightarrow>
                (case log_export now filename usr (map pk changes) d of
                   (Some e, d') \<Rightarrow> (Inl e, d')
                 | (None, d') \<Rightarrow> (Inr (Csv filename (Header # rows)), d'))))"

section \<open>Sample data\<close>

text \<open>
  The scenario of the specification: a four-pack at a case cost of 10.00 selling at 3.48,
  with a cost change to 11.00 under review.
\<close>

definition sample_item :: item where
  "sample_item =
     \<lparr>item_pk = 1, vendor_id = ''COKE'', upc = ''049000000443'',
      brdata_item_no = Some ''4711'', description = ''Cola 12oz'',
      case_pack = 4, case_cost = 10, allowance = 0,
      retail_price = Some (348 / 100),
      last_cost_change = None, last_price_change = None\<rparr>"

definition sample_change :: pending_cost_change where
  "sample_change =
     \<lparr>pk = Some 1, item_id = 1, vendor_code = ''COKE'', pcc_upc = ''049000000443'',
      new_case_cost = 11, new_allowance = 0, effective_date = Date 2026 11 4,
      suggested_retail = Some (388 / 100), approved_retail = Some (388 / 100),
      prev_case_cost = Some 10, prev_allowance = Some 0,
      prev_retail = Some (348 / 100), prev_margin = Some (49 / 174),
      status = PENDING, change_source = MANUAL,
      submitted_by = Some ''ann'', approved_by = None,
      approved_at = None, applied_at = None, pcc_notes = Some []\<rparr>"

definition sample_db :: "pending_cost_change list \<Rightarrow> db" where
  "sample_db changes =
     \<lparr>vendors = [\<lparr>v_vendor_code = ''COKE'', target_margin = 28 / 100\<rparr>],
      items = [sample_item],
      pending_cost_changes = changes,
      change_history_log = [],
      export_log = []\<rparr>"

definition sample_post :: cost_change_post where
  "sample_post =
     \<lparr>p_new_case_cost = PyText (Numeric 11), p_new_allowance = PyText Empty,
      p_effective_date = Some (Date 2026 11 4), p_approved_retail = PyText Empty,
      p_notes = []\<rparr>"

section \<open>Constraints and invariants of the tables\<close>

text \<open>
  The primary key of the pending cost changes, as the database keeps it: every stored row
  has a key and no two rows share one.
\<close>

definition keys_ok :: "db \<Rightarrow> bool" where
  "keys_ok d \<longleftrightarrow>
     distinct (map pk (pending_cost_changes d)) \<and>
     (\<forall>r \<in> set (pending_cost_changes d). pk r \<noteq> None)"

text \<open>The open changes of an item, and the invariant that there is at most one.\<close>

definition open_changes :: "db \<Rightarrow> nat \<Rightarrow> pending_cost_change list" where
  "open_changes d i =
     filter (\<lambda>c. item_id c = i \<and> status c = PENDING) (pending_cost_changes d)"

definition at_most_one_pending :: "db \<Rightarrow> bool" where
  "at_most_one_pending d \<longleftrightarrow> (\<forall>i. length (open_changes d i) \<le> 1)"

section \<open>Properties of the pricing utilities\<close>

lemma py_int_nonneg: "0 \<le> x \<Longrightarrow> py_int x = \<lfloor>x\<rfloor>"
  by (simp add: py_int_def)

lemma quantize_exact: "quantize k (of_int c / 10 ^ k) = of_int c / 10 ^ k"
  by (simp add: quantize_def Let_def)

lemma quantize_exact_100: "quantize 2 (of_int c / 100) = of_int c / 100"
  using quantize_exact [of 2 c] by simp

lemma band_arith:
  fixes tc :: int
  assumes "0 \<le> tc"
  defines "r \<equiv> tc mod 10"
  defines "sc \<equiv> (if r \<le> 8 then tc - r + 8 else tc - r + 18)"
  shows "\<not> sc < tc" and "sc mod 10 = 8" and "tc \<le> sc" and "sc \<le> tc + 9"
  unfolding sc_def r_def by presburger+

lemma suggest_retail_unfold:
  assumes "0 < u" "0 < m" "m < 1" and t: "t = u / (1 - m) * 100"
  shows "suggest_retail (Some u) (Some m) =
     Some (of_int (if \<lfloor>t\<rfloor> mod 10 \<le> 8 then \<lfloor>t\<rfloor> - \<lfloor>t\<rfloor> mod 10 + 8
                   else \<lfloor>t\<rfloor> - \<lfloor>t\<rfloor> mod 10 + 18) / 100)"
proof -
  have pos: "0 \<le> t" using assms by simp
  then have tc0: "0 \<le> \<lfloor>t\<rfloor>" by simp
  have pi: "py_int t = \<lfloor>t\<rfloor>" using pos by (rule py_int_nonneg)
  have g: "\<not> (m \<le> 0 \<or> 1 \<le> m)" "\<not> u \<le> 0" using assms by auto
  show ?thesis
    unfolding suggest_retail_def Let_def option.case t [symmetric]
    using band_arith(1) [OF tc0]
    by (simp add: g pi quantize_exact_100)
qed



text \<open>
  The suggested retail is not below the theoretical price when the theoretical price is
  a whole number of cents, or when its whole cents do not end in 8.
\<close>

lemma suggest_retail_ge_theoretical:
  assumes "0 < u" "0 < m" "m < 1"
    and "suggest_retail (Some u) (Some m) = Some r"
    and "\<lfloor>u / (1 - m) * 100\<rfloor> mod 10 \<noteq> 8 \<or> of_int \<lfloor>u / (1 - m) * 100\<rfloor> = u / (1 - m) * 100"
  shows "u / (1 - m) \<le> r"
proof -
  define t where "t = u / (1 - m) * 100"
  define sc where "sc = (if \<lfloor>t\<rfloor> mod 10 \<le> 8 then \<lfloor>t\<rfloor> - \<lfloor>t\<rfloor> mod 10 + 8 else \<lfloor>t\<rfloor> - \<lfloor>t\<rfloor> mod 10 + 18)"
  have "suggest_retail (Some u) (Some m) = Some (of_int sc / 100)"
    unfolding sc_def by (rule suggest_retail_unfold [OF assms(1-3) t_def])
  with assms(4) have r: "r = of_int sc / 100" by simp
  have h: "\<lfloor>t\<rfloor> mod 10 \<noteq> 8 \<or> of_int \<lfloor>t\<rfloor> = t" using assms(5) unfolding t_def .
  have "t \<le> of_int sc"
  proof (cases "of_int \<lfloor>t\<rfloor> = t")
    case True
    have "\<lfloor>t\<rfloor> \<le> sc" unfolding sc_def by presburger
    then have "(of_int \<lfloor>t\<rfloor> :: rat) \<le> of_int sc" by (simp only: of_int_le_iff)
    then show ?thesis by (simp only: True)
  next
    case False
    with h have "\<lfloor>t\<rfloor> mod 10 \<noteq> 8" by simp
    then have "\<lfloor>t\<rfloor> + 1 \<le> sc" unfolding sc_def by presburger
    then have "(of_int (\<lfloor>t\<rfloor> + 1) :: rat) \<le> of_int sc" by (simp only: of_int_le_iff)
    moreover have "t < of_int (\<lfloor>t\<rfloor> + 1)" using floor_correct [of t] by simp
    ultimately show ?thesis by linarith
  qed
  then have "t \<le> r * 100" by (simp add: r)
  moreover define w where "w = u / (1 - m)"
  moreover have "t = w * 100" unfolding t_def w_def ..
  ultimately have "w \<le> r" by linarith
  then show ?thesis unfolding w_def .
qed

text \<open>
  C1. The claim: for every unit cost \<open>u > 0\<close> and margin \<open>0 < m < 1\<close> the suggested retail
  is never below \<open>u / (1 - m)\<close>, that is \<open>suggest_retail u m * (1 - m) \<ge> u\<close>. The function
  truncates the theoretical price to whole cents before it looks for the next price ending
  in 8, so a theoretical price of 638.29... cents is answered with 638 cents. On the first
  example of the function's own docstring (unit cost 4.50 at 29.5 percent, documented
  result 6.48) the function returns 6.38, and 6.38 * (1 - 0.295) is below 4.50.
\<close>

theorem suggest_retail_docstring_example_undercuts:
  "suggest_retail (Some (450 / 100)) (Some (295 / 1000)) = Some (638 / 100) \<and>
   (638 / 100) * (1 - 295 / 1000) < (450 / 100 :: rat)"
  by code_simp






section \<open>Properties of the workflow\<close>

lemma save_change_member:
  "fst (save_change c d) \<in> set (pending_cost_changes (snd (save_change c d)))"
  by (cases "pk c") (auto simp: save_change_def Let_def)

lemma save_change_fields:
  "fst (save_change c d) = c\<lparr>pk := pk (fst (save_change c d))\<rparr>"
  by (cases "pk c") (auto simp: save_change_def Let_def)

lemma get_object_or_404_Nil: "get_object_or_404 [] = Inl Http404"
  by (simp add: get_object_or_404_def get_one_def)

text \<open>
  C10. In \<open>approve\<close> a retail override of zero counts as no override: a pending change
  approved with the number 0 becomes APPROVED, and its approved retail keeps the value
  it had, or takes the suggested retail when it had none.
\<close>

theorem approve_zero_override_ignored:
  assumes "status self = PENDING"
  shows "\<exists>c d'. approve now self usr (PyNum 0) d = (Inr c, d') \<and>
           c \<in> set (pending_cost_changes d') \<and>
           status c = APPROVED \<and>
           approved_retail c =
             (case approved_retail self of
                None \<Rightarrow> suggested_retail self
              | Some v \<Rightarrow> Some v)"
proof (cases "approved_retail self")
  case None
  define c0 where
    "c0 = self\<lparr>status := APPROVED, approved_by := usr, approved_at := Some now,
               approved_retail := suggested_retail self\<rparr>"
  have e: "approve now self usr (PyNum 0) d = (Inr (fst (save_change c0 d)), snd (save_change c0 d))"
    using None by (simp add: approve_def Let_def c0_def split_beta)
  have f: "status (fst (save_change c0 d)) = APPROVED"
    "approved_retail (fst (save_change c0 d)) = suggested_retail self"
    by (subst save_change_fields, simp add: c0_def)+
  show ?thesis using e f None save_change_member [of c0 d] by auto
next
  case (Some v)
  define c0 where
    "c0 = self\<lparr>status := APPROVED, approved_by := usr, approved_at := Some now\<rparr>"
  have e: "approve now self usr (PyNum 0) d = (Inr (fst (save_change c0 d)), snd (save_change c0 d))"
    using Some by (simp add: approve_def Let_def c0_def split_beta)
  have f: "status (fst (save_change c0 d)) = APPROVED"
    "approved_retail (fst (save_change c0 d)) = Some v"
    by (subst save_change_fields, simp add: c0_def Some)+
  show ?thesis using e f Some save_change_member [of c0 d] by auto
qed

theorem approve_zero_override_ignored_witness:
  "\<exists>c d'. approve (Date 2026 11 4, 0) (sample_change\<lparr>approved_retail := None\<rparr>)
             (Some ''bob'') (PyNum 0) (sample_db [sample_change\<lparr>approved_retail := None\<rparr>])
             = (Inr c, d') \<and>
          status c = APPROVED \<and> approved_retail c = Some (388 / 100)"
proof -
  have s: "status (sample_change\<lparr>approved_retail := None\<rparr>) = PENDING"
    by (simp add: sample_change_def)
  from approve_zero_override_ignored [OF s]
  show ?thesis by (fastforce simp: sample_change_def)
qed

text \<open>
  C2. The claim: on a change that is not PENDING, approve and reject fail with an
  invalid-transition error and leave every field unchanged. The method \<open>approve\<close> makes no
  test of the status: on a REJECTED change it succeeds and stores it as APPROVED.
\<close>

theorem approve_rejected_change_counterexample:
  "map status
     (pending_cost_changes
        (snd (approve (Date 2026 11 4, 0) (sample_change\<lparr>status := REJECTED\<rparr>)
                (Some ''bob'') PyNone (sample_db [sample_change\<lparr>status := REJECTED\<rparr>]))))
   = [APPROVED]"
  by (simp add: approve_def save_change_def sample_db_def sample_change_def Let_def)

text \<open>
  C2, as amended. The status is tested where a request enters: \<open>approve_change\<close>, which
  carries out both approve and reject, looks the change up among the PENDING changes
  only, and \<open>apply_change\<close> among the APPROVED ones. For a change in any other status
  either request fails as not found and leaves the database as it was. \<open>apply_to_item\<close>
  itself refuses a change that is not APPROVED with an error, before anything is
  written.
\<close>

theorem wrong_state_requests_fail_unchanged:
  "((\<forall>c \<in> set (pending_cost_changes d). pk c = Some k \<longrightarrow> status c \<noteq> PENDING) \<longrightarrow>
      approve_change now method usr k action retail_override d = (Inl Http404, d)) \<and>
   ((\<forall>c \<in> set (pending_cost_changes d). pk c = Some k \<longrightarrow> status c \<noteq> APPROVED) \<longrightarrow>
      apply_change now method usr k d = (Inl Http404, d)) \<and>
   (status self \<noteq> APPROVED \<longrightarrow>
      apply_to_item_states now self usr' d = Inl ValueError \<and>
      apply_to_item now self usr' d = (Inl ValueError, d))"
proof (intro conjI impI)
  assume "\<forall>c \<in> set (pending_cost_changes d). pk c = Some k \<longrightarrow> status c \<noteq> PENDING"
  then have "filter (\<lambda>c. pk c = Some k \<and> status c = PENDING) (pending_cost_changes d) = []"
    by (auto simp: filter_empty_conv)
  then show "approve_change now method usr k action retail_override d = (Inl Http404, d)"
    by (simp add: approve_change_def get_object_or_404_Nil)
next
  assume "\<forall>c \<in> set (pending_cost_changes d). pk c = Some k \<longrightarrow> status c \<noteq> APPROVED"
  then have "filter (\<lambda>c. pk c = Some k \<and> status c = APPROVED) (pending_cost_changes d) = []"
    by (auto simp: filter_empty_conv)
  then show "apply_change now method usr k d = (Inl Http404, d)"
    by (simp add: apply_change_def get_object_or_404_Nil)
next
  assume "status self \<noteq> APPROVED"
  then show "apply_to_item_states now self usr' d = Inl ValueError"
    by (simp add: apply_to_item_states_def)
  then show "apply_to_item now self usr' d = (Inl ValueError, d)"
    by (simp add: apply_to_item_def)
qed

theorem wrong_state_requests_fail_unchanged_witness:
  "approve_change (Date 2026 11 4, 0) POST ''bob'' 1 (Some ''approve'') PyNone
     (sample_db [sample_change\<lparr>status := REJECTED\<rparr>])
     = (Inl Http404, sample_db [sample_change\<lparr>status := REJECTED\<rparr>]) \<and>
   apply_change (Date 2026 11 4, 0) POST ''bob'' 1
     (sample_db [sample_change\<lparr>status := REJECTED\<rparr>])
     = (Inl Http404, sample_db [sample_change\<lparr>status := REJECTED\<rparr>]) \<and>
   apply_to_item (Date 2026 11 4, 0) (sample_change\<lparr>status := REJECTED\<rparr>) (Some ''bob'')
     (sample_db [sample_change\<lparr>status := REJECTED\<rparr>])
     = (Inl ValueError, sample_db [sample_change\<lparr>status := REJECTED\<rparr>])"
proof -
  let ?c = "sample_change\<lparr>status := REJECTED\<rparr>"
  have a: "\<forall>c \<in> set (pending_cost_changes (sample_db [?c])). pk c = Some 1 \<longrightarrow> status c \<noteq> PENDING"
    by (simp add: sample_db_def)
  have b: "\<forall>c \<in> set (pending_cost_changes (sample_db [?c])). pk c = Some 1 \<longrightarrow> status c \<noteq> APPROVED"
    by (simp add: sample_db_def)
  have c: "status ?c \<noteq> APPROVED" by simp
  from wrong_state_requests_fail_unchanged
    [of "sample_db [?c]" 1 "(Date 2026 11 4, 0)" POST "''bob''" "Some ''approve''" PyNone ?c "Some ''bob''"]
    a b c
  show ?thesis by blast
qed

lemma get_one_Inr_iff: "get_one xs = Inr x \<longleftrightarrow> xs = [x]"
  by (auto simp: get_one_def split: list.splits)

lemma filter_replace_by_key:
  assumes "key x = k"
  shows "filter (\<lambda>r. key r = k) (map (\<lambda>r. if key r = k then x else r) xs) =
         map (\<lambda>_. x) (filter (\<lambda>r. key r = k) xs)"
  using assms by (induction xs) auto

lemma item_of_save_item:
  assumes "item_of d c = Inr it" and "item_pk it' = item_pk it"
  shows "item_of (save_item it' d) c = Inr it'"
proof -
  from assms(1) have f: "filter (\<lambda>i. item_pk i = item_id c) (items d) = [it]"
    by (simp add: item_of_def get_one_Inr_iff)
  then have "it \<in> set (filter (\<lambda>i. item_pk i = item_id c) (items d))" by simp
  then have k: "item_pk it = item_id c" by simp
  with assms(2) have k': "item_pk it' = item_id c" by simp
  have "filter (\<lambda>i. item_pk i = item_id c)
          (map (\<lambda>r. if item_pk r = item_id c then it' else r) (items d)) = [it']"
    using filter_replace_by_key [of item_pk it' "item_id c" "items d"] k' f by simp
  then show ?thesis
    by (simp add: item_of_def save_item_def get_one_Inr_iff k')
qed

lemma save_change_existing:
  assumes "pk self = Some k" and "self \<in> set (pending_cost_changes d)" and "pk c' = Some k"
  shows "snd (save_change c' d) =
           d\<lparr>pending_cost_changes :=
                map (\<lambda>r. if pk r = Some k then c' else r) (pending_cost_changes d)\<rparr>"
  using assms by (auto simp: save_change_def Let_def)

lemma save_change_other_tables:
  "items (snd (save_change c d)) = items d"
  "vendors (snd (save_change c d)) = vendors d"
  "change_history_log (snd (save_change c d)) = change_history_log d"
  "export_log (snd (save_change c d)) = export_log d"
  by (cases "pk c"; simp add: save_change_def Let_def)+

lemma updated_item_eq:
  "updated_item now self it =
     it\<lparr>case_cost := new_case_cost self,
        allowance := new_allowance self,
        last_cost_change := Some (date_of now),
        retail_price := (if retail_changed self it then approved_retail self else retail_price it),
        last_price_change :=
          (if retail_changed self it then Some (date_of now) else last_price_change it)\<rparr>"
  by (simp add: updated_item_def Let_def)

text \<open>
  C3. Applying an APPROVED change: the retail counts as changed when an approved retail
  is set and differs from the item's retail price; the history record, typed
  COST_AND_PRICE or COST_ONLY accordingly, is appended while the item is still
  untouched; then the item takes the new case cost, allowance and last cost change date,
  and the retail price and last price change date only when the retail changed; last the
  change becomes APPLIED with its applied timestamp.
\<close>

theorem apply_to_item_approved:
  assumes "status self = APPROVED"
    and "item_of d self = Inr it"
    and "pk self = Some k"
    and "self \<in> set (pending_cost_changes d)"
  shows "\<exists>d1 d2 d3 h it'.
     apply_to_item_states now self usr d = Inr [d1, d2, d3] \<and>
     apply_to_item now self usr d = (Inr (), d3) \<and>
     (retail_changed self it \<longleftrightarrow>
        approved_retail self \<noteq> None \<and> approved_retail self \<noteq> retail_price it) \<and>
     h_change_type h = (if retail_changed self it then COST_AND_PRICE else COST_ONLY) \<and>
     d1 = d\<lparr>change_history_log := change_history_log d @ [h]\<rparr> \<and>
     it' = it\<lparr>case_cost := new_case_cost self,
              allowance := new_allowance self,
              last_cost_change := Some (date_of now),
              retail_price :=
                (if retail_changed self it then approved_retail self else retail_price it),
              last_price_change :=
                (if retail_changed self it then Some (date_of now) else last_price_change it)\<rparr> \<and>
     d2 = d1\<lparr>items := map (\<lambda>r. if item_pk r = item_pk it then it' else r) (items d)\<rparr> \<and>
     item_of d2 self = Inr it' \<and>
     d3 = d2\<lparr>pending_cost_changes :=
                map (\<lambda>r. if pk r = Some k then self\<lparr>status := APPLIED, applied_at := Some now\<rparr>
                         else r) (pending_cost_changes d)\<rparr>"
proof -
  define h where "h = history_record now usr self it"
  define it' where "it' = updated_item now self it"
  define c' where "c' = self\<lparr>status := APPLIED, applied_at := Some now\<rparr>"
  define d1 where "d1 = d\<lparr>change_history_log := change_history_log d @ [h]\<rparr>"
  define d2 where "d2 = save_item it' d1"
  define d3 where "d3 = snd (save_change c' d2)"
  have st: "apply_to_item_states now self usr d = Inr [d1, d2, d3]"
    using assms(1,2)
    by (simp add: apply_to_item_states_def Let_def h_def it'_def c'_def d1_def d2_def d3_def)
  then have ap: "apply_to_item now self usr d = (Inr (), d3)"
    by (simp add: apply_to_item_def)
  have pk': "item_pk it' = item_pk it" by (simp add: it'_def updated_item_eq)
  have i1: "item_of d1 self = Inr it" using assms(2) by (simp add: item_of_def d1_def)
  have i2: "item_of d2 self = Inr it'"
    unfolding d2_def by (rule item_of_save_item [OF i1 pk'])
  have e2: "d2 = d1\<lparr>items := map (\<lambda>r. if item_pk r = item_pk it then it' else r) (items d)\<rparr>"
    by (simp add: d2_def save_item_def pk' d1_def)
  have m: "self \<in> set (pending_cost_changes d2)" using assms(4) by (simp add: e2 d1_def)
  have "pk c' = Some k" using assms(3) by (simp add: c'_def)
  from save_change_existing [OF assms(3) m this]
  have e3: "d3 = d2\<lparr>pending_cost_changes :=
                map (\<lambda>r. if pk r = Some k then c' else r) (pending_cost_changes d)\<rparr>"
    by (simp add: d3_def e2 d1_def)
  have t: "h_change_type h = (if retail_changed self it then COST_AND_PRICE else COST_ONLY)"
    by (simp add: h_def history_record_def)
  have rc: "retail_changed self it \<longleftrightarrow>
        approved_retail self \<noteq> None \<and> approved_retail self \<noteq> retail_price it"
    by (simp add: retail_changed_def)
  show ?thesis
    using st ap rc t d1_def updated_item_eq [of now self it, folded it'_def] e2 i2 e3 [unfolded c'_def]
    by blast
qed

theorem apply_to_item_approved_witness:
  "\<exists>d3. apply_to_item (Date 2026 11 5, 9) (sample_change\<lparr>status := APPROVED\<rparr>) (Some ''bob'')
           (sample_db [sample_change\<lparr>status := APPROVED\<rparr>]) = (Inr (), d3)"
proof -
  let ?c = "sample_change\<lparr>status := APPROVED\<rparr>"
  have a: "status ?c = APPROVED" by simp
  have b: "item_of (sample_db [?c]) ?c = Inr sample_item"
    by (simp add: item_of_def get_one_def sample_db_def sample_item_def sample_change_def)
  have c: "pk ?c = Some 1" by (simp add: sample_change_def)
  have d: "?c \<in> set (pending_cost_changes (sample_db [?c]))" by (simp add: sample_db_def)
  from apply_to_item_approved [OF a b c d, of "(Date 2026 11 5, 9)" "Some ''bob''"]
  show ?thesis by blast
qed

text \<open>
  C8. The claim: every history record written by applying a cost change holds before
  and after values for cost, allowance, retail and margin, the new margin included.
  \<open>apply_to_item\<close> never sets the new margin: the record written for the sample change
  has none.
\<close>

theorem history_new_margin_unset_counterexample:
  "map h_new_margin
     (change_history_log
        (snd (apply_to_item (Date 2026 11 5, 9) (sample_change\<lparr>status := APPROVED\<rparr>)
                (Some ''bob'') (sample_db [sample_change\<lparr>status := APPROVED\<rparr>]))))
   = [None]"
  by (simp add: apply_to_item_def apply_to_item_states_def item_of_def get_one_def
      sample_db_def sample_item_def sample_change_def Let_def save_item_def
      save_change_def history_record_def)

text \<open>
  C8, as amended. Applying an APPROVED change appends exactly one history record. It
  holds the item's vendor code and UPC, the old and new case cost, allowance and retail,
  the item's margin before the update as old margin and no new margin, the acting user
  (or SYSTEM), the change source copied from the change, and the id of the change.
\<close>

theorem apply_to_item_history_record:
  assumes "status self = APPROVED" and "item_of d self = Inr it"
  shows "change_history_log (snd (apply_to_item now self usr d)) =
     change_history_log d @
       [\<lparr>h_vendor_code = vendor_id it,
         h_upc = upc it,
         h_change_date = now,
         h_change_type = (if retail_changed self it then COST_AND_PRICE else COST_ONLY),
         h_old_case_cost = Some (case_cost it),
         h_old_allowance = Some (allowance it),
         h_new_case_cost = Some (new_case_cost self),
         h_new_allowance = Some (new_allowance self),
         h_old_retail = retail_price it,
         h_new_retail = approved_retail self,
         h_old_margin = margin it,
         h_new_margin = None,
         h_changed_by = Some (case usr of None \<Rightarrow> ''SYSTEM'' | Some u \<Rightarrow> u),
         h_change_source = change_source self,
         h_pending_cost_change_id = pk self,
         h_price_change_reason = None,
         h_notes = None\<rparr>]"
  using assms
  by (simp add: apply_to_item_def apply_to_item_states_def Let_def
      save_change_other_tables save_item_def history_record_def)

theorem apply_to_item_history_record_witness:
  "change_history_log
     (snd (apply_to_item (Date 2026 11 5, 9) (sample_change\<lparr>status := APPROVED\<rparr>) None
             (sample_db [sample_change\<lparr>status := APPROVED\<rparr>]))) =
     [\<lparr>h_vendor_code = ''COKE'',
       h_upc = ''049000000443'',
       h_change_date = (Date 2026 11 5, 9),
       h_change_type = COST_AND_PRICE,
       h_old_case_cost = Some 10,
       h_old_allowance = Some 0,
       h_new_case_cost = Some 11,
       h_new_allowance = Some 0,
       h_old_retail = Some (348 / 100),
       h_new_retail = Some (388 / 100),
       h_old_margin = Some (49 / 174),
       h_new_margin = None,
       h_changed_by = Some ''SYSTEM'',
       h_change_source = MANUAL,
       h_pending_cost_change_id = Some 1,
       h_price_change_reason = None,
       h_notes = None\<rparr>]"
proof -
  let ?c = "sample_change\<lparr>status := APPROVED\<rparr>"
  have a: "status ?c = APPROVED" by simp
  have b: "item_of (sample_db [?c]) ?c = Inr sample_item"
    by (simp add: item_of_def get_one_def sample_db_def sample_item_def sample_change_def)
  have m: "margin sample_item = Some (49 / 174)"
    by (simp add: margin_def unit_cost_def net_case_cost_def sample_item_def)
  have r: "retail_changed ?c sample_item"
    by (simp add: retail_changed_def sample_item_def sample_change_def)
  from apply_to_item_history_record [OF a b, of "(Date 2026 11 5, 9)" None]
  show ?thesis
    by (simp add: m r) (simp add: sample_db_def sample_item_def sample_change_def)
qed


lemma posted_allowance:
  "(let a = (case p of PyNone \<Rightarrow> PyNum 0 | v \<Rightarrow> v) in if is_true a then a else PyNum 0) =
   (if is_true p then p else PyNum 0)"
  by (cases p) simp_all

lemma submitted_change_fields:
  "status (submitted_change usr vcode ucode post it existing ncc na suggested retail eff) = PENDING"
  "suggested_retail (submitted_change usr vcode ucode post it existing ncc na suggested retail eff)
     = suggested"
  "approved_retail (submitted_change usr vcode ucode post it existing ncc na suggested retail eff)
     = retail"
  "new_case_cost (submitted_change usr vcode ucode post it existing ncc na suggested retail eff) = ncc"
  "new_allowance (submitted_change usr vcode ucode post it existing ncc na suggested retail eff) = na"
  "effective_date (submitted_change usr vcode ucode post it existing ncc na suggested retail eff) = eff"
  "prev_case_cost (submitted_change usr vcode ucode post it existing ncc na suggested retail eff)
     = Some (case_cost it)"
  "prev_allowance (submitted_change usr vcode ucode post it existing ncc na suggested retail eff)
     = Some (allowance it)"
  "prev_retail (submitted_change usr vcode ucode post it existing ncc na suggested retail eff)
     = retail_price it"
  "prev_margin (submitted_change usr vcode ucode post it existing ncc na suggested retail eff)
     = margin it"
  "change_source (submitted_change usr vcode ucode post it existing ncc na suggested retail eff)
     = MANUAL"
  "submitted_by (submitted_change usr vcode ucode post it existing ncc na suggested retail eff)
     = Some usr"
  "pcc_notes (submitted_change usr vcode ucode post it existing ncc na suggested retail eff)
     = Some (p_notes post)"
  by (simp_all add: submitted_change_def Let_def)

lemma submitted_change_key:
  "pk (submitted_change usr vcode ucode post it existing ncc na suggested retail eff) =
     (case existing of None \<Rightarrow> None | Some c \<Rightarrow> pk c)"
  "item_id (submitted_change usr vcode ucode post it existing ncc na suggested retail eff) =
     (case existing of None \<Rightarrow> item_pk it | Some c \<Rightarrow> item_id c)"
  by (simp_all add: submitted_change_def Let_def split: option.splits)




lemma filter_key_distinct:
  assumes "distinct (map key xs)" and "x \<in> set xs"
  shows "filter (\<lambda>c. key c = key x) xs = [x]"
  using assms
proof (induction xs)
  case Nil
  then show ?case by simp
next
  case (Cons a xs)
  show ?case
  proof (cases "a = x")
    case True
    have "key x \<notin> key ` set xs" using Cons.prems(1) True by simp
    then have "\<forall>c \<in> set xs. key c \<noteq> key x" by (metis imageI)
    then have "filter (\<lambda>c. key c = key x) xs = []"
      by (simp add: filter_empty_conv)
    with True show ?thesis by simp
  next
    case False
    with Cons.prems have "x \<in> set xs" "key a \<noteq> key x" "distinct (map key xs)" by auto
    with Cons.IH show ?thesis by simp
  qed
qed

lemma due_changes_cong:
  "pending_cost_changes d' = pending_cost_changes d \<Longrightarrow> due_changes today d' = due_changes today d"
  by (simp add: due_changes_def)

lemma item_of_cong: "items d' = items d \<Longrightarrow> item_of d' c = item_of d c"
  by (simp add: item_of_def)

lemma export_rows_ok:
  assumes "\<forall>c \<in> set cs. item_of d c = Inr (itm c)"
  shows "export_rows d cs = Inr (map (\<lambda>c. export_row (itm c) c) cs)"
  using assms by (induction cs) simp_all

lemma log_export_ok:
  assumes "distinct (map pk (due_changes (date_of now) d))"
    and "\<forall>c \<in> set (due_changes (date_of now) d). item_of d c = Inr (itm c)"
    and "set cs \<subseteq> set (due_changes (date_of now) d)"
    and "pending_cost_changes d0 = pending_cost_changes d"
    and "items d0 = items d"
  shows "log_export now filename usr (map pk cs) d0 =
     (None, d0\<lparr>export_log := export_log d0 @
                  map (\<lambda>c. export_log_entry now filename usr (itm c) c) cs\<rparr>)"
  using assms(3-5)
proof (induction cs arbitrary: d0)
  case Nil
  then show ?case by simp
next
  case (Cons x cs)
  have x: "x \<in> set (due_changes (date_of now) d)" using Cons.prems(1) by simp
  have due: "due_changes (date_of now) d0 = due_changes (date_of now) d"
    using Cons.prems(2) by (rule due_changes_cong)
  have g: "get_one (filter (\<lambda>c. pk c = pk x) (due_changes (date_of now) d0)) = Inr x"
    using filter_key_distinct [OF assms(1) x] by (simp add: due get_one_def)
  have i: "item_of d0 x = Inr (itm x)"
    using assms(2) x item_of_cong [OF Cons.prems(3)] by simp
  define d1 where
    "d1 = d0\<lparr>export_log := export_log d0 @ [export_log_entry now filename usr (itm x) x]\<rparr>"
  have "log_export now filename usr (map pk (x # cs)) d0 =
        log_export now filename usr (map pk cs) d1"
    by (simp add: g i d1_def)
  also have "\<dots> = (None, d1\<lparr>export_log := export_log d1 @
                  map (\<lambda>c. export_log_entry now filename usr (itm c) c) cs\<rparr>)"
    using Cons.prems by (intro Cons.IH) (simp_all add: d1_def)
  finally show ?case by (simp add: d1_def)
qed

lemma brdata_export_result:
  assumes "distinct (map pk (pending_cost_changes d))"
    and "\<forall>c \<in> set (due_changes (date_of now) d). item_of d c = Inr (itm c)"
  shows "brdata_export now usr d =
     (if due_changes (date_of now) d = [] then (Inr (Redirect (Some Msg_warning)), d)
      else (Inr (Csv (''brdata_export_'' @ strftime_Ymd (date_of now) @ ''.csv'')
                   (Header # map (\<lambda>c. export_row (itm c) c) (due_changes (date_of now) d))),
            d\<lparr>export_log := export_log d @
                 map (\<lambda>c. export_log_entry now
                            (''brdata_export_'' @ strftime_Ymd (date_of now) @ ''.csv'') usr (itm c) c)
                   (due_changes (date_of now) d)\<rparr>))"
proof -
  have dd: "distinct (map pk (due_changes (date_of now) d))"
    using assms(1) unfolding due_changes_def by (rule distinct_map_filter)
  show ?thesis
    unfolding brdata_export_def Let_def
    by (simp add: export_rows_ok [OF assms(2)]
        log_export_ok [OF dd assms(2) subset_refl refl refl])
qed

text \<open>
  C7. The export takes exactly the changes that are APPROVED with an effective date not
  after today. When there is none it answers with a warning and writes nothing. Else it
  writes one row per change and one log entry per change, marked SENT, with the file
  name of the run and the exporting user, and it leaves the pending cost changes as they
  were, so a second run writes the same rows again and its own log entries.
\<close>

theorem brdata_export_rows_and_log:
  assumes "distinct (map pk (pending_cost_changes d))"
    and "\<forall>c \<in> set (due_changes (date_of now) d). item_of d c = Inr (itm c)"
    and "sel = due_changes (date_of now) d"
    and "filename = ''brdata_export_'' @ strftime_Ymd (date_of now) @ ''.csv''"
    and "d' = snd (brdata_export now usr d)"
  shows "sel = filter (\<lambda>c. status c = APPROVED \<and> date_le (effective_date c) (date_of now))
                 (pending_cost_changes d) \<and>
     (sel = [] \<longrightarrow> brdata_export now usr d = (Inr (Redirect (Some Msg_warning)), d)) \<and>
     (sel \<noteq> [] \<longrightarrow>
        fst (brdata_export now usr d) = Inr (Csv filename (Header # map (\<lambda>c. export_row (itm c) c) sel)) \<and>
        export_log d' = export_log d @ map (\<lambda>c. export_log_entry now filename usr (itm c) c) sel \<and>
        (\<forall>c \<in> set sel.
           e_export_status (export_log_entry now filename usr (itm c) c) = SENT \<and>
           e_export_file (export_log_entry now filename usr (itm c) c) = Some filename \<and>
           e_exported_by (export_log_entry now filename usr (itm c) c) = Some usr) \<and>
        fst (brdata_export now usr d') = fst (brdata_export now usr d) \<and>
        export_log (snd (brdata_export now usr d')) =
          export_log d' @ map (\<lambda>c. export_log_entry now filename usr (itm c) c) sel) \<and>
     pending_cost_changes d' = pending_cost_changes d \<and>
     items d' = items d \<and>
     change_history_log d' = change_history_log d"
proof -
  note r = brdata_export_result [OF assms(1,2), of usr, folded assms(3,4)]
  have p1: "pending_cost_changes d' = pending_cost_changes d"
    unfolding assms(5) r by simp
  have p2: "items d' = items d"
    unfolding assms(5) r by simp
  have p3: "change_history_log d' = change_history_log d"
    unfolding assms(5) r by simp
  have due': "due_changes (date_of now) d' = sel"
    using due_changes_cong [OF p1, of "date_of now"] by (simp add: assms(3))
  have a1: "distinct (map pk (pending_cost_changes d'))" using assms(1) p1 by simp
  have a2: "\<forall>c \<in> set (due_changes (date_of now) d'). item_of d' c = Inr (itm c)"
    using assms(2) by (simp add: due' assms(3) item_of_cong [OF p2])
  note r' = brdata_export_result [OF a1 a2, of usr, unfolded due', folded assms(4)]
  have s: "sel = filter (\<lambda>c. status c = APPROVED \<and> date_le (effective_date c) (date_of now))
                 (pending_cost_changes d)"
    by (simp add: assms(3) due_changes_def)
  have e: "brdata_export now usr d = (Inr (Redirect (Some Msg_warning)), d)" if "sel = []"
    using that by (simp add: r)
  have n1: "fst (brdata_export now usr d) =
              Inr (Csv filename (Header # map (\<lambda>c. export_row (itm c) c) sel))"
    if "sel \<noteq> []"
    using that by (simp add: r)
  have n2: "export_log d' =
              export_log d @ map (\<lambda>c. export_log_entry now filename usr (itm c) c) sel"
    if "sel \<noteq> []"
    unfolding assms(5) using that by (simp add: r)
  have t: "\<forall>c \<in> set sel.
           e_export_status (export_log_entry now filename usr (itm c) c) = SENT \<and>
           e_export_file (export_log_entry now filename usr (itm c) c) = Some filename \<and>
           e_exported_by (export_log_entry now filename usr (itm c) c) = Some usr"
    by (simp add: export_log_entry_def)
  have n3: "fst (brdata_export now usr d') = fst (brdata_export now usr d)" if "sel \<noteq> []"
    using that by (simp add: r r')
  have n4: "export_log (snd (brdata_export now usr d')) =
              export_log d' @ map (\<lambda>c. export_log_entry now filename usr (itm c) c) sel"
    if "sel \<noteq> []"
    using that by (simp add: r')
  show ?thesis
    by (intro conjI impI)
      (rule s, erule e, erule n1, erule n2, rule t, erule n3, erule n4, rule p1, rule p2, rule p3)
qed


theorem brdata_export_rows_and_log_witness:
  "fst (brdata_export (Date 2026 11 5, 7) ''eve''
          (sample_db [sample_change\<lparr>status := APPROVED\<rparr>,
                      sample_change\<lparr>pk := Some 2, status := APPROVED,
                                    effective_date := Date 2026 12 1\<rparr>])) =
     Inr (Csv ''brdata_export_20261105.csv''
            [Header, Row ''4711'' ''049000000443'' ''Cola 12oz'' (Some (388 / 100)) ''20261104'' ''COKE'']) \<and>
   map e_export_status
     (export_log (snd (brdata_export (Date 2026 11 5, 7) ''eve''
          (sample_db [sample_change\<lparr>status := APPROVED\<rparr>,
                      sample_change\<lparr>pk := Some 2, status := APPROVED,
                                    effective_date := Date 2026 12 1\<rparr>])))) = [SENT]"
proof -
  let ?c1 = "sample_change\<lparr>status := APPROVED\<rparr>"
  let ?c2 = "sample_change\<lparr>pk := Some 2, status := APPROVED, effective_date := Date 2026 12 1\<rparr>"
  let ?d = "sample_db [?c1, ?c2]"
  let ?now = "(Date 2026 11 5, 7 :: nat)"
  have due: "due_changes (date_of ?now) ?d = [?c1]"
    by (simp add: due_changes_def date_of_def date_le_def sample_db_def sample_change_def)
  have a1: "distinct (map pk (pending_cost_changes ?d))"
    by (simp add: sample_db_def sample_change_def)
  have a2: "\<forall>c \<in> set (due_changes (date_of ?now) ?d). item_of ?d c = Inr ((\<lambda>_. sample_item) c)"
    unfolding due
    by (simp add: item_of_def get_one_def sample_db_def sample_item_def sample_change_def)
  have f: "''brdata_export_'' @ strftime_Ymd (date_of ?now) @ ''.csv'' = ''brdata_export_20261105.csv''"
    by code_simp
  have row: "export_row sample_item ?c1 =
      Row ''4711'' ''049000000443'' ''Cola 12oz'' (Some (388 / 100)) ''20261104'' ''COKE''"
    by code_simp
  have empty: "export_log ?d = []" by (simp add: sample_db_def)
  have ne: "[?c1] \<noteq> []" by simp
  note t = brdata_export_rows_and_log [OF a1 a2 due [symmetric] f [symmetric] refl, of "''eve''"]
  note n = t [THEN conjunct2, THEN conjunct2, THEN conjunct1, THEN mp, OF ne]
  note n1 = n [THEN conjunct1]
  note n2 = n [THEN conjunct2, THEN conjunct1]
  have r1: "map (\<lambda>c. export_row sample_item c) [?c1] =
      [Row ''4711'' ''049000000443'' ''Cola 12oz'' (Some (388 / 100)) ''20261104'' ''COKE'']"
    by (simp only: list.map row)
  have r2: "map e_export_status
      (export_log ?d @
       map (\<lambda>c. export_log_entry ?now ''brdata_export_20261105.csv'' ''eve'' sample_item c) [?c1])
      = [SENT]"
    by (simp only: empty) (simp add: export_log_entry_def)
  show ?thesis unfolding n1 n2 r1 r2 by simp
qed

lemma next_pk_fresh:
  assumes "r \<in> set rows" and "pk r = Some k"
  shows "k < next_pk rows"
proof -
  let ?ks = "map (\<lambda>r. case pk r of None \<Rightarrow> 0 | Some k \<Rightarrow> k) rows"
  have "k \<in> set ?ks" using assms by force
  then have "k \<le> Max (set (0 # ?ks))" by simp
  also have "Max (set (0 # ?ks)) = fold max ?ks 0" by (rule Max.set_eq_fold)
  finally show ?thesis by (simp add: next_pk_def)
qed

lemma save_change_new:
  assumes "pk c = None"
  shows "snd (save_change c d) =
           d\<lparr>pending_cost_changes :=
                pending_cost_changes d @ [c\<lparr>pk := Some (next_pk (pending_cost_changes d))\<rparr>]\<rparr>"
  using assms by (simp add: save_change_def Let_def)

lemma filter_map_commute:
  assumes "\<forall>r \<in> set xs. Q (f r) = Q r"
  shows "filter Q (map f xs) = map f (filter Q xs)"
  using assms by (induction xs) auto

lemma cost_change_entry_post_success:
  assumes "fst (cost_change_entry_post usr vcode ucode post it existing d)
             = Inr (Redirect (Some Msg_success))"
  obtains ncc na suggested retail eff where
    "py_float (p_new_case_cost post) = Inr ncc"
    "py_float (if is_true (p_new_allowance post) then p_new_allowance post else PyNum 0) = Inr na"
    "p_effective_date post = Some eff"
    "cost_change_entry_post usr vcode ucode post it existing d =
       (Inr (Redirect (Some Msg_success)),
        snd (save_change
               (submitted_change usr vcode ucode post it existing ncc na suggested retail eff) d))"
  using assms unfolding cost_change_entry_post_def posted_allowance
  by (auto simp: Let_def split: sum.splits option.splits if_splits)

lemma submit_step:
  assumes k: "keys_ok d" and inv: "at_most_one_pending d"
    and lk: "get_object_or_404 (filter (\<lambda>i. vendor_id i = vcode \<and> upc i = ucode) (items d)) = Inr it"
    and ok: "fst (cost_change_entry POST usr vcode ucode post d) = Inr (Redirect (Some Msg_success))"
    and d': "d' = snd (cost_change_entry POST usr vcode ucode post d)"
  obtains c where
    "keys_ok d'"
    "at_most_one_pending d'"
    "open_changes d' (item_pk it) = [c]"
    "open_changes d (item_pk it) = [] \<longrightarrow>
       pending_cost_changes d' = pending_cost_changes d @ [c]"
    "\<forall>e. open_changes d (item_pk it) = [e] \<longrightarrow>
       pk c = pk e \<and>
       pending_cost_changes d' = map (\<lambda>r. if pk r = pk e then c else r) (pending_cost_changes d)"
    "status c = PENDING"
    "py_float (p_new_case_cost post) = Inr (new_case_cost c)"
    "py_float (if is_true (p_new_allowance post) then p_new_allowance post else PyNum 0)
       = Inr (new_allowance c)"
    "p_effective_date post = Some (effective_date c)"
    "submitted_by c = Some usr \<and> pcc_notes c = Some (p_notes post)"
    "prev_case_cost c = Some (case_cost it) \<and> prev_allowance c = Some (allowance it) \<and>
     prev_retail c = retail_price it \<and> prev_margin c = margin it"
proof -
  define rows where "rows = pending_cost_changes d"
  define k0 where "k0 = item_pk it"
  define existing where "existing = first_change (open_changes d k0)"
  have unf: "cost_change_entry POST usr vcode ucode post d =
             cost_change_entry_post usr vcode ucode post it existing d"
    by (simp add: cost_change_entry_def lk Let_def existing_def open_changes_def k0_def)
  from ok [unfolded unf] obtain ncc na suggested retail eff where
    f1: "py_float (p_new_case_cost post) = Inr ncc" and
    f2: "py_float (if is_true (p_new_allowance post) then p_new_allowance post else PyNum 0) = Inr na" and
    f3: "p_effective_date post = Some eff" and
    res: "cost_change_entry_post usr vcode ucode post it existing d =
       (Inr (Redirect (Some Msg_success)),
        snd (save_change
               (submitted_change usr vcode ucode post it existing ncc na suggested retail eff) d))"
    by (rule cost_change_entry_post_success)
  define ch where
    "ch = submitted_change usr vcode ucode post it existing ncc na suggested retail eff"
  have dd: "d' = snd (save_change ch d)" by (simp add: d' unf res ch_def)
  have st: "status ch = PENDING" by (simp add: ch_def submitted_change_fields)
  have inv1: "length (open_changes d i) \<le> 1" for i
    using inv by (simp add: at_most_one_pending_def)
  have dist: "distinct (map pk rows)" and some: "\<forall>r \<in> set rows. pk r \<noteq> None"
    using k by (simp_all add: keys_ok_def rows_def)
  have fld:
    "py_float (p_new_case_cost post) = Inr (new_case_cost (ch\<lparr>pk := x\<rparr>))"
    "py_float (if is_true (p_new_allowance post) then p_new_allowance post else PyNum 0)
       = Inr (new_allowance (ch\<lparr>pk := x\<rparr>))"
    "p_effective_date post = Some (effective_date (ch\<lparr>pk := x\<rparr>))"
    "submitted_by (ch\<lparr>pk := x\<rparr>) = Some usr \<and> pcc_notes (ch\<lparr>pk := x\<rparr>) = Some (p_notes post)"
    "prev_case_cost (ch\<lparr>pk := x\<rparr>) = Some (case_cost it) \<and>
     prev_allowance (ch\<lparr>pk := x\<rparr>) = Some (allowance it) \<and>
     prev_retail (ch\<lparr>pk := x\<rparr>) = retail_price it \<and> prev_margin (ch\<lparr>pk := x\<rparr>) = margin it"
    "status (ch\<lparr>pk := x\<rparr>) = PENDING" for x
    by (simp_all add: f1 f2 f3 ch_def submitted_change_fields)
  show thesis
  proof (cases "open_changes d k0")
    case Nil
    then have ex: "existing = None" by (simp add: existing_def)
    have pkn: "pk ch = None" and idc: "item_id ch = k0"
      by (simp_all add: ch_def submitted_change_key ex k0_def)
    define c where "c = ch\<lparr>pk := Some (next_pk rows)\<rparr>"
    have rows': "pending_cost_changes d' = rows @ [c]"
      by (simp add: dd save_change_new [OF pkn] c_def rows_def)
    have fresh: "Some (next_pk rows) \<notin> set (map pk rows)"
    proof
      assume "Some (next_pk rows) \<in> set (map pk rows)"
      then obtain r where "r \<in> set rows" "pk r = Some (next_pk rows)" by auto
      from next_pk_fresh [OF this] show False by simp
    qed
    have k': "keys_ok d'"
      using dist some fresh by (simp add: keys_ok_def rows' c_def)
    have oc: "open_changes d' i = open_changes d i @ (if i = k0 then [c] else [])" for i
      by (auto simp: open_changes_def rows' rows_def c_def idc st)
    have inv': "at_most_one_pending d'"
      unfolding at_most_one_pending_def
    proof
      fix i
      show "length (open_changes d' i) \<le> 1"
        using inv1 [of i] Nil by (cases "i = k0") (simp_all add: oc)
    qed
    have o1: "open_changes d' (item_pk it) = [c]"
      using Nil by (simp add: oc k0_def [symmetric])
    show thesis
    proof (rule that [of c])
      show "keys_ok d'" by (rule k')
      show "at_most_one_pending d'" by (rule inv')
      show "open_changes d' (item_pk it) = [c]" by (rule o1)
      show "open_changes d (item_pk it) = [] \<longrightarrow>
              pending_cost_changes d' = pending_cost_changes d @ [c]"
        by (simp add: rows' rows_def)
      show "\<forall>e. open_changes d (item_pk it) = [e] \<longrightarrow>
              pk c = pk e \<and>
              pending_cost_changes d' =
                map (\<lambda>r. if pk r = pk e then c else r) (pending_cost_changes d)"
        using Nil by (simp add: k0_def)
    qed (simp_all only: c_def fld)
  next
    case (Cons e es)
    from inv1 [of k0] Cons have es: "es = []" by simp
    with Cons have oe: "open_changes d k0 = [e]" by simp
    then have ex: "existing = Some e" by (simp add: existing_def)
    have "e \<in> set (open_changes d k0)" by (simp add: oe)
    then have em: "e \<in> set rows" and eid: "item_id e = k0" and est: "status e = PENDING"
      by (simp_all add: open_changes_def rows_def)
    from some em obtain kk where ke: "pk e = Some kk" by auto
    have pkc: "pk ch = Some kk" and idc: "item_id ch = k0"
      by (simp_all add: ch_def submitted_change_key ex ke eid)
    have only: "pk r = Some kk \<longleftrightarrow> r = e" if "r \<in> set rows" for r
      using dist that em ke by (metis distinct_map inj_onD)
    have rows': "pending_cost_changes d' = map (\<lambda>r. if pk r = Some kk then ch else r) rows"
      using save_change_existing [OF ke em [unfolded rows_def] pkc]
      by (simp add: dd rows_def)
    have pks: "map pk (pending_cost_changes d') = map pk rows"
      by (simp add: rows' pkc)
    have k': "keys_ok d'"
      unfolding keys_ok_def
    proof
      show "distinct (map pk (pending_cost_changes d'))" using dist by (simp only: pks)
      have "set (map pk (pending_cost_changes d')) = set (map pk rows)" by (simp only: pks)
      then have "None \<notin> set (map pk (pending_cost_changes d'))" using some by force
      then show "\<forall>r \<in> set (pending_cost_changes d'). pk r \<noteq> None" by force
    qed
    have same: "\<forall>r \<in> set rows.
        (\<lambda>c. item_id c = i \<and> status c = PENDING) (if pk r = Some kk then ch else r) =
        (\<lambda>c. item_id c = i \<and> status c = PENDING) r" for i
      using only by (auto simp: idc st eid est)
    have oc: "open_changes d' i =
        map (\<lambda>r. if pk r = Some kk then ch else r) (open_changes d i)" for i
      unfolding open_changes_def rows' rows_def [symmetric]
      by (rule filter_map_commute [OF same])
    have inv': "at_most_one_pending d'"
      unfolding at_most_one_pending_def
    proof
      fix i
      show "length (open_changes d' i) \<le> 1" using inv1 [of i] by (simp add: oc)
    qed
    have o1: "open_changes d' (item_pk it) = [ch]"
      using oe by (simp add: oc k0_def [symmetric] ke)
    have chk: "ch = ch\<lparr>pk := Some kk\<rparr>" using pkc by simp
    show thesis
    proof (rule that [of ch])
      show "keys_ok d'" by (rule k')
      show "at_most_one_pending d'" by (rule inv')
      show "open_changes d' (item_pk it) = [ch]" by (rule o1)
      show "open_changes d (item_pk it) = [] \<longrightarrow>
              pending_cost_changes d' = pending_cost_changes d @ [ch]"
        using oe by (simp add: k0_def)
      show "\<forall>e. open_changes d (item_pk it) = [e] \<longrightarrow>
              pk ch = pk e \<and>
              pending_cost_changes d' =
                map (\<lambda>r. if pk r = pk e then ch else r) (pending_cost_changes d)"
        using oe by (simp add: k0_def [symmetric] pkc ke rows' rows_def)
    qed (subst chk, simp only: fld)+
  qed
qed

lemma filter_map_shrinks:
  assumes "\<forall>r \<in> set xs. Q (f r) \<longrightarrow> Q r"
  shows "length (filter Q (map f xs)) \<le> length (filter Q xs)"
  using assms by (induction xs) auto

lemma open_changes_save_not_pending:
  assumes "status c \<noteq> PENDING"
  shows "length (open_changes (snd (save_change c d)) i) \<le> length (open_changes d i)"
proof (cases "pk c")
  case None
  then show ?thesis using assms by (simp add: save_change_def Let_def open_changes_def)
next
  case (Some k)
  show ?thesis
  proof (cases "\<exists>r \<in> set (pending_cost_changes d). pk r = Some k")
    case True
    have "length (filter (\<lambda>c. item_id c = i \<and> status c = PENDING)
                    (map (\<lambda>r. if pk r = Some k then c else r) (pending_cost_changes d)))
          \<le> length (filter (\<lambda>c. item_id c = i \<and> status c = PENDING) (pending_cost_changes d))"
      by (rule filter_map_shrinks) (simp add: assms)
    then show ?thesis using Some True by (simp add: save_change_def Let_def open_changes_def)
  next
    case False
    then show ?thesis using Some assms by (simp add: save_change_def Let_def open_changes_def)
  qed
qed

lemma save_not_pending_keeps_invariant:
  assumes "status c \<noteq> PENDING" and "at_most_one_pending d"
  shows "at_most_one_pending (snd (save_change c d))"
  unfolding at_most_one_pending_def
proof
  fix i
  have "length (open_changes d i) \<le> 1" using assms(2) by (simp add: at_most_one_pending_def)
  with open_changes_save_not_pending [OF assms(1), of d i]
  show "length (open_changes (snd (save_change c d)) i) \<le> 1" by linarith
qed

lemma same_changes_keeps_invariant:
  assumes "pending_cost_changes d' = pending_cost_changes d" and "at_most_one_pending d"
  shows "at_most_one_pending d'"
  using assms by (simp add: at_most_one_pending_def open_changes_def)

lemma approve_keeps_invariant:
  assumes "at_most_one_pending d"
  shows "at_most_one_pending (snd (approve now self usr retail_override d))"
proof -
  have s: "at_most_one_pending (snd (save_change c d))" if "status c = APPROVED" for c
    using assms that by (intro save_not_pending_keeps_invariant) simp_all
  show ?thesis
    by (auto simp: approve_def Let_def split_beta assms split: sum.splits intro!: s)
qed

lemma approve_change_keeps_invariant:
  assumes "at_most_one_pending d"
  shows "at_most_one_pending (snd (approve_change now method usr k action retail_override d))"
proof -
  have r: "at_most_one_pending (snd (save_change (c\<lparr>status := REJECTED, approved_by := a,
                approved_at := b\<rparr>) d))" for c a b
    using assms by (intro save_not_pending_keeps_invariant) simp_all
  have a: "at_most_one_pending (snd (approve now c u v d))" for c u v
    using assms by (rule approve_keeps_invariant)
  show ?thesis
  proof (cases "get_object_or_404 (filter (\<lambda>c. pk c = Some k \<and> status c = PENDING)
                  (pending_cost_changes d))")
    case (Inl e)
    then show ?thesis using assms by (simp add: approve_change_def)
  next
    case (Inr change)
    show ?thesis
    proof (cases "method = POST \<and> action = Some ''approve''")
      case True
      obtain x d' where x: "approve now change (Some usr)
          (if is_true retail_override then retail_override else PyNone) d = (x, d')"
        by (cases "approve now change (Some usr)
          (if is_true retail_override then retail_override else PyNone) d")
      from a [of change "Some usr" "if is_true retail_override then retail_override else PyNone"]
      have "at_most_one_pending d'" by (simp add: x)
      then show ?thesis using True Inr x by (cases x) (simp_all add: approve_change_def)
    next
      case False
      then show ?thesis using Inr assms r by (auto simp: approve_change_def)
    qed
  qed
qed

lemma apply_to_item_keeps_invariant:
  assumes "at_most_one_pending d"
  shows "at_most_one_pending (snd (apply_to_item now self usr d))"
proof (cases "apply_to_item_states now self usr d")
  case (Inl e)
  then show ?thesis using assms by (simp add: apply_to_item_def)
next
  case (Inr states)
  then obtain it where st: "states =
      [d\<lparr>change_history_log := change_history_log d @ [history_record now usr self it]\<rparr>,
       save_item (updated_item now self it)
         (d\<lparr>change_history_log := change_history_log d @ [history_record now usr self it]\<rparr>),
       snd (save_change (self\<lparr>status := APPLIED, applied_at := Some now\<rparr>)
              (save_item (updated_item now self it)
                 (d\<lparr>change_history_log :=
                       change_history_log d @ [history_record now usr self it]\<rparr>)))]"
    by (auto simp: apply_to_item_states_def Let_def split: if_splits sum.splits)
  let ?d2 = "save_item (updated_item now self it)
         (d\<lparr>change_history_log := change_history_log d @ [history_record now usr self it]\<rparr>)"
  have "pending_cost_changes ?d2 = pending_cost_changes d" by (simp add: save_item_def)
  then have "at_most_one_pending ?d2" using assms by (rule same_changes_keeps_invariant)
  then have "at_most_one_pending
      (snd (save_change (self\<lparr>status := APPLIED, applied_at := Some now\<rparr>) ?d2))"
    by (intro save_not_pending_keeps_invariant) simp_all
  then show ?thesis using Inr by (simp add: apply_to_item_def st)
qed

lemma apply_change_keeps_invariant:
  assumes "at_most_one_pending d"
  shows "at_most_one_pending (snd (apply_change now method usr k d))"
proof (cases "get_object_or_404 (filter (\<lambda>c. pk c = Some k \<and> status c = APPROVED)
                  (pending_cost_changes d))")
  case (Inl e)
  then show ?thesis using assms by (simp add: apply_change_def)
next
  case (Inr change)
  obtain x d' where x: "apply_to_item now change (Some usr) d = (x, d')"
    by (cases "apply_to_item now change (Some usr) d")
  from apply_to_item_keeps_invariant [OF assms, of now change "Some usr"]
  have "at_most_one_pending d'" by (simp add: x)
  then show ?thesis
    using Inr x assms
    by (cases "method = POST")
       (auto simp: apply_change_def split: sum.splits error.splits)
qed


lemma log_export_changes:
  "pending_cost_changes (snd (log_export now filename usr ks d)) = pending_cost_changes d"
  by (induction now filename usr ks d rule: log_export.induct) (auto split: sum.splits)

lemma brdata_export_keeps_invariant:
  assumes "at_most_one_pending d"
  shows "at_most_one_pending (snd (brdata_export now usr d))"
proof -
  have "pending_cost_changes (snd (brdata_export now usr d)) = pending_cost_changes d"
  proof (cases "due_changes (date_of now) d = []")
    case True
    then show ?thesis by (simp add: brdata_export_def)
  next
    case False
    show ?thesis
    proof (cases "export_rows d (due_changes (date_of now) d)")
      case (Inl e)
      then show ?thesis using False by (simp add: brdata_export_def Let_def)
    next
      case (Inr rows)
      obtain x d' where l:
        "log_export now (''brdata_export_'' @ strftime_Ymd (date_of now) @ ''.csv'') usr
           (map pk (due_changes (date_of now) d)) d = (x, d')"
        by (cases "log_export now (''brdata_export_'' @ strftime_Ymd (date_of now) @ ''.csv'') usr
           (map pk (due_changes (date_of now) d)) d")
      have "pending_cost_changes (snd (x, d')) = pending_cost_changes d"
        unfolding l [symmetric] by (rule log_export_changes)
      then have "pending_cost_changes d' = pending_cost_changes d" by simp
      then show ?thesis
        using False Inr l by (cases x) (simp_all add: brdata_export_def Let_def)
    qed
  qed
  then show ?thesis using assms by (rule same_changes_keeps_invariant)
qed

lemma cost_change_entry_post_failure:
  assumes "fst (cost_change_entry_post usr vcode ucode post it existing d)
             \<noteq> Inr (Redirect (Some Msg_success))"
  shows "snd (cost_change_entry_post usr vcode ucode post it existing d) = d"
  using assms unfolding cost_change_entry_post_def
  by (auto simp: Let_def split: sum.splits option.splits if_splits)

lemma cost_change_entry_keeps_invariant:
  assumes "keys_ok d" and "at_most_one_pending d"
  shows "at_most_one_pending (snd (cost_change_entry method usr vcode ucode post d))"
proof (cases "get_object_or_404 (filter (\<lambda>i. vendor_id i = vcode \<and> upc i = ucode) (items d))")
  case (Inl e)
  then show ?thesis using assms(2) by (simp add: cost_change_entry_def)
next
  case (Inr it)
  show ?thesis
  proof (cases "method = POST")
    case False
    then show ?thesis using Inr assms(2) by (simp add: cost_change_entry_def Let_def)
  next
    case True
    show ?thesis
    proof (cases "fst (cost_change_entry POST usr vcode ucode post d)
                    = Inr (Redirect (Some Msg_success))")
      case ok: True
      from submit_step [OF assms Inr ok refl]
      have "at_most_one_pending (snd (cost_change_entry POST usr vcode ucode post d))" by blast
      then show ?thesis by (simp only: True)
    next
      case False
      then have "snd (cost_change_entry POST usr vcode ucode post d) = d"
        using Inr by (simp add: cost_change_entry_def Let_def cost_change_entry_post_failure)
      then show ?thesis using assms(2) by (simp add: True)
    qed
  qed
qed

lemma open_changes_items_update: "open_changes (d\<lparr>items := its\<rparr>) i = open_changes d i"
  by (simp add: open_changes_def)

lemma keys_ok_items_update: "keys_ok (d\<lparr>items := its\<rparr>) = keys_ok d"
  by (simp add: keys_ok_def)

lemma at_most_one_pending_items_update:
  "at_most_one_pending (d\<lparr>items := its\<rparr>) = at_most_one_pending d"
  by (simp add: at_most_one_pending_def open_changes_items_update)

text \<open>
  C4. No item has more than one PENDING change: starting from a database in which that
  holds, every request (submission, approval or rejection, application, export) keeps
  it. Of two submissions for the same item, the second finds
  the PENDING change the first one left and rewrites that record in place, under the same
  key and with no row added; afterwards the item has exactly one PENDING change, which
  carries the fields of the second submission and the snapshot of the item as it is
  when the second submission arrives (the item table may have changed in between).
\<close>

theorem second_submission_updates_open_change:
  assumes "keys_ok d" and "at_most_one_pending d"
    and "get_object_or_404 (filter (\<lambda>i. vendor_id i = vcode \<and> upc i = ucode) (items d)) = Inr it1"
    and "fst (cost_change_entry POST usr1 vcode ucode post1 d) = Inr (Redirect (Some Msg_success))"
    and "d1 = (snd (cost_change_entry POST usr1 vcode ucode post1 d))\<lparr>items := its\<rparr>"
    and "get_object_or_404 (filter (\<lambda>i. vendor_id i = vcode \<and> upc i = ucode) its) = Inr it2"
    and "item_pk it2 = item_pk it1"
    and "fst (cost_change_entry POST usr2 vcode ucode post2 d1) = Inr (Redirect (Some Msg_success))"
    and "d2 = snd (cost_change_entry POST usr2 vcode ucode post2 d1)"
  shows "at_most_one_pending (snd (cost_change_entry method usr vcode' ucode' post d)) \<and>
     at_most_one_pending (snd (approve_change now method usr k action retail_override d)) \<and>
     at_most_one_pending (snd (apply_change now method usr k d)) \<and>
     at_most_one_pending (snd (brdata_export now usr d)) \<and>
     at_most_one_pending d1 \<and> at_most_one_pending d2 \<and>
     (\<exists>c1 c2.
        open_changes d1 (item_pk it1) = [c1] \<and>
        open_changes d2 (item_pk it1) = [c2] \<and>
        pk c2 = pk c1 \<and>
        pending_cost_changes d2 =
          map (\<lambda>r. if pk r = pk c1 then c2 else r) (pending_cost_changes d1) \<and>
        status c2 = PENDING \<and>
        py_float (p_new_case_cost post2) = Inr (new_case_cost c2) \<and>
        py_float (if is_true (p_new_allowance post2) then p_new_allowance post2 else PyNum 0)
          = Inr (new_allowance c2) \<and>
        p_effective_date post2 = Some (effective_date c2) \<and>
        submitted_by c2 = Some usr2 \<and>
        pcc_notes c2 = Some (p_notes post2) \<and>
        prev_case_cost c2 = Some (case_cost it2) \<and>
        prev_allowance c2 = Some (allowance it2) \<and>
        prev_retail c2 = retail_price it2 \<and>
        prev_margin c2 = margin it2)"
proof -
  define d1' where "d1' = snd (cost_change_entry POST usr1 vcode ucode post1 d)"
  from submit_step [OF assms(1-4) d1'_def] obtain c1 where
    k1': "keys_ok d1'" and i1': "at_most_one_pending d1'" and
    o1': "open_changes d1' (item_pk it1) = [c1]"
    by blast
  have e1: "d1 = d1'\<lparr>items := its\<rparr>" by (simp add: assms(5) d1'_def)
  have k1: "keys_ok d1" using k1' by (simp add: e1 keys_ok_items_update)
  have i1: "at_most_one_pending d1" using i1' by (simp add: e1 at_most_one_pending_items_update)
  have o1: "open_changes d1 (item_pk it2) = [c1]"
    using o1' by (simp add: e1 open_changes_items_update assms(7))
  have lk2: "get_object_or_404
      (filter (\<lambda>i. vendor_id i = vcode \<and> upc i = ucode) (items d1)) = Inr it2"
    using assms(6) by (simp add: e1)
  from submit_step [OF k1 i1 lk2 assms(8,9)] obtain c2 where
    i2: "at_most_one_pending d2" and
    o2: "open_changes d2 (item_pk it2) = [c2]" and
    up: "\<forall>e. open_changes d1 (item_pk it2) = [e] \<longrightarrow>
           pk c2 = pk e \<and>
           pending_cost_changes d2 =
             map (\<lambda>r. if pk r = pk e then c2 else r) (pending_cost_changes d1)" and
    f: "status c2 = PENDING"
       "py_float (p_new_case_cost post2) = Inr (new_case_cost c2)"
       "py_float (if is_true (p_new_allowance post2) then p_new_allowance post2 else PyNum 0)
          = Inr (new_allowance c2)"
       "p_effective_date post2 = Some (effective_date c2)"
       "submitted_by c2 = Some usr2 \<and> pcc_notes c2 = Some (p_notes post2)"
       "prev_case_cost c2 = Some (case_cost it2) \<and> prev_allowance c2 = Some (allowance it2) \<and>
        prev_retail c2 = retail_price it2 \<and> prev_margin c2 = margin it2"
    by blast
  from up o1 have u: "pk c2 = pk c1"
    "pending_cost_changes d2 =
       map (\<lambda>r. if pk r = pk c1 then c2 else r) (pending_cost_changes d1)"
    by blast+
  have "open_changes d1 (item_pk it1) = [c1]" "open_changes d2 (item_pk it1) = [c2]"
    using o1 o2 by (simp_all add: assms(7))
  with u f have sc: "\<exists>c1 c2.
        open_changes d1 (item_pk it1) = [c1] \<and>
        open_changes d2 (item_pk it1) = [c2] \<and>
        pk c2 = pk c1 \<and>
        pending_cost_changes d2 =
          map (\<lambda>r. if pk r = pk c1 then c2 else r) (pending_cost_changes d1) \<and>
        status c2 = PENDING \<and>
        py_float (p_new_case_cost post2) = Inr (new_case_cost c2) \<and>
        py_float (if is_true (p_new_allowance post2) then p_new_allowance post2 else PyNum 0)
          = Inr (new_allowance c2) \<and>
        p_effective_date post2 = Some (effective_date c2) \<and>
        submitted_by c2 = Some usr2 \<and>
        pcc_notes c2 = Some (p_notes post2) \<and>
        prev_case_cost c2 = Some (case_cost it2) \<and>
        prev_allowance c2 = Some (allowance it2) \<and>
        prev_retail c2 = retail_price it2 \<and>
        prev_margin c2 = margin it2"
    by blast
  show ?thesis
    by (intro conjI)
      (rule cost_change_entry_keeps_invariant [OF assms(1,2)],
       rule approve_change_keeps_invariant [OF assms(2)],
       rule apply_change_keeps_invariant [OF assms(2)],
       rule brdata_export_keeps_invariant [OF assms(2)],
       rule i1, rule i2, rule sc)
qed

theorem second_submission_updates_open_change_witness:
  "map (\<lambda>c. (pk c, status c, new_case_cost c, submitted_by c, prev_retail c))
     (pending_cost_changes
        (snd (cost_change_entry POST ''cat'' ''COKE'' ''049000000443''
                (sample_post\<lparr>p_new_case_cost := PyText (Numeric 12)\<rparr>)
                ((snd (cost_change_entry POST ''ann'' ''COKE'' ''049000000443'' sample_post
                         (sample_db [])))
                 \<lparr>items := [sample_item\<lparr>retail_price := Some (398 / 100)\<rparr>]\<rparr>))))
   = [(Some 1, PENDING, 12, Some ''cat'', Some (398 / 100))]"
proof -
  let ?post2 = "sample_post\<lparr>p_new_case_cost := PyText (Numeric 12)\<rparr>"
  let ?it2 = "sample_item\<lparr>retail_price := Some (398 / 100)\<rparr>"
  let ?d1 = "(snd (cost_change_entry POST ''ann'' ''COKE'' ''049000000443'' sample_post
                     (sample_db [])))\<lparr>items := [?it2]\<rparr>"
  let ?d2 = "snd (cost_change_entry POST ''cat'' ''COKE'' ''049000000443'' ?post2 ?d1)"
  have h1: "keys_ok (sample_db [])" by (simp add: keys_ok_def sample_db_def)
  have h2: "at_most_one_pending (sample_db [])"
    by (simp add: at_most_one_pending_def open_changes_def sample_db_def)
  have h3: "get_object_or_404
      (filter (\<lambda>i. vendor_id i = ''COKE'' \<and> upc i = ''049000000443'') (items (sample_db [])))
      = Inr sample_item"
    by (simp add: get_object_or_404_def get_one_def sample_db_def sample_item_def)
  have h4: "fst (cost_change_entry POST ''ann'' ''COKE'' ''049000000443'' sample_post (sample_db []))
      = Inr (Redirect (Some Msg_success))"
    by code_simp
  have h6: "get_object_or_404
      (filter (\<lambda>i. vendor_id i = ''COKE'' \<and> upc i = ''049000000443'') [?it2]) = Inr ?it2"
    by (simp add: get_object_or_404_def get_one_def sample_item_def)
  have h7: "item_pk ?it2 = item_pk sample_item" by simp
  have h8: "fst (cost_change_entry POST ''cat'' ''COKE'' ''049000000443'' ?post2 ?d1)
      = Inr (Redirect (Some Msg_success))"
    by code_simp
  have rows1: "map pk (pending_cost_changes ?d1) = [Some 1]"
    by code_simp
  from second_submission_updates_open_change [OF h1 h2 h3 h4 refl h6 h7 h8 refl]
  obtain c1 c2 where
    o1: "open_changes ?d1 (item_pk sample_item) = [c1]" and
    k: "pk c2 = pk c1" and
    m: "pending_cost_changes ?d2 =
          map (\<lambda>r. if pk r = pk c1 then c2 else r) (pending_cost_changes ?d1)" and
    f: "status c2 = PENDING"
       "py_float (p_new_case_cost ?post2) = Inr (new_case_cost c2)"
       "submitted_by c2 = Some ''cat''"
       "prev_retail c2 = retail_price ?it2"
    by blast
  obtain r where r: "pending_cost_changes ?d1 = [r]" "pk r = Some 1"
    using rows1 by (cases "pending_cost_changes ?d1") auto
  have "c1 \<in> set (open_changes ?d1 (item_pk sample_item))" by (simp only: o1) simp
  then have "c1 \<in> set (pending_cost_changes ?d1)" by (simp add: open_changes_def)
  then have c1: "c1 = r" by (simp only: r(1)) simp
  have rows2: "pending_cost_changes ?d2 = [c2]"
    by (simp only: m r(1)) (simp add: c1)
  have n: "new_case_cost c2 = 12" using f(2) by (simp add: sample_post_def)
  have p: "pk c2 = Some 1" by (simp add: k c1 r(2))
  show ?thesis
    by (simp only: rows2) (simp add: p f(1) n f(3) f(4))
qed

end
